theory Spec2Isabelle
  imports Main
begin

section \<open>Text, lines and whitespace\<close>

text \<open>
  Python's \<open>str\<close> is modelled by \<open>string\<close>; a \<open>char\<close> stands for one code point
  below 256. Files are text files that decode without error.
\<close>

definition LF :: char where
  "LF = CHR 0x0A"

definition CR :: char where
  "CR = CHR 0x0D"

text \<open>
  \<open>str.isspace\<close> on the code points below 256: tab, line feed, vertical tab, form feed,
  carriage return, the four separators 0x1C..0x1F, space, NEL and the no-break space.
\<close>

definition is_space :: "char \<Rightarrow> bool" where
  "is_space c \<longleftrightarrow> c \<in> set [CHR 0x09, CHR 0x0A, CHR 0x0B, CHR 0x0C, CHR 0x0D,
     CHR 0x1C, CHR 0x1D, CHR 0x1E, CHR 0x1F, CHR 0x20, CHR 0x85, CHR 0xA0]"

text \<open>\<open>s.strip()\<close>: leading and trailing whitespace removed.\<close>

definition strip :: "string \<Rightarrow> string" where
  "strip s = rev (dropWhile is_space (rev (dropWhile is_space s)))"

text \<open>
  A file opened with \<open>open(filename, 'r')\<close> is read with universal newlines: \<open>\r\n\<close> and a
  lone \<open>\r\<close> both arrive as \<open>\n\<close>.
\<close>

fun universal_newlines :: "string \<Rightarrow> string" where
  "universal_newlines [] = []"
| "universal_newlines [c] = (if c = CR then [LF] else [c])"
| "universal_newlines (c # d # ds) =
     (if c = CR \<and> d = LF then LF # universal_newlines ds
      else if c = CR then LF # universal_newlines (d # ds)
      else c # universal_newlines (d # ds))"

text \<open>
  \<open>f.readlines()\<close>: the text cut after every line feed, each line keeping its line feed;
  a last line without one is kept as it is, and the empty text has no line.
\<close>

fun readlines :: "string \<Rightarrow> string list" where
  "readlines [] = []"
| "readlines (c # cs) =
     (if c = LF then [c] # readlines cs
      else (case readlines cs of [] \<Rightarrow> [[c]] | l # ls \<Rightarrow> (c # l) # ls))"

section \<open>The metadata header\<close>

text \<open>\<open>datetime.now()\<close> is an input of the model: the reading of the clock.\<close>

record datetime =
  year :: nat
  month :: nat
  day :: nat
  hour :: nat
  minute :: nat
  second :: nat

definition digit_char :: "nat \<Rightarrow> char" where
  "digit_char n = ''0123456789'' ! (n mod 10)"

definition pad2 :: "nat \<Rightarrow> string" where
  "pad2 n = [digit_char (n div 10), digit_char n]"

definition pad4 :: "nat \<Rightarrow> string" where
  "pad4 n = [digit_char (n div 1000), digit_char (n div 100), digit_char (n div 10), digit_char n]"

text \<open>\<open>now.strftime('%Y-%m-%d %H:%M:%S')\<close>, for the years of four digits.\<close>

definition strftime :: "datetime \<Rightarrow> string" where
  "strftime t = pad4 (year t) @ ''-'' @ pad2 (month t) @ ''-'' @ pad2 (day t) @ '' '' @
     pad2 (hour t) @ '':'' @ pad2 (minute t) @ '':'' @ pad2 (second t)"

text \<open>
  The number that a string of decimal digits denotes. It is not part of the program: it
  says what the digits of \<open>strftime\<close> mean.
\<close>

definition digit_value :: "char \<Rightarrow> nat" where
  "digit_value c = of_char c - 48"

definition read_decimal :: "string \<Rightarrow> nat" where
  "read_decimal s = foldl (\<lambda>a c. 10 * a + digit_value c) 0 s"

text \<open>The f-string \<open>metadata\<close> of \<open>_write_file\<close>: four lines and an empty fifth.\<close>

definition metadata :: "datetime \<Rightarrow> string" where
  "metadata t = ''---\<newline>'' @
     ''Generated: '' @ strftime t @ ''\<newline>'' @
     ''Generator: Technical Specification Generator v1.0\<newline>'' @
     ''---\<newline>'' @
     ''\<newline>''"

section \<open>The file system\<close>

text \<open>
  A path is the list of its components below the working directory; the empty path is the
  working directory itself. A node is a directory (with the permission to create entries
  in it) or a regular file (with its read and write permissions and its text). A file
  system maps the paths that exist to their nodes; in a file system that can occur, the
  ancestors of a path that exists are directories.
\<close>

type_synonym path = "string list"

datatype node = Dir bool | File bool bool string

type_synonym fs = "path \<rightharpoonup> node"

datatype error =
  FileNotFoundError | IsADirectoryError | NotADirectoryError | PermissionError | FileExistsError

definition parent :: "path \<Rightarrow> path" where
  "parent p = butlast p"

text \<open>
  A path that is missing is looked for through its ancestors, from the working directory
  down, and the first ancestor that is not a directory decides the error: a missing one
  gives \<open>FileNotFoundError\<close>, a regular file \<open>NotADirectoryError\<close>. In \<open>obstacle fs pre cs\<close> the
  components \<open>pre\<close> have been walked and \<open>cs\<close> are still to come; the path \<open>pre @ cs\<close> itself is
  not looked at.
\<close>

fun obstacle :: "fs \<Rightarrow> path \<Rightarrow> path \<Rightarrow> error option" where
  "obstacle fs pre [] = None"
| "obstacle fs pre (c # cs) =
     (case fs pre of
        None \<Rightarrow> Some FileNotFoundError
      | Some (File r w s) \<Rightarrow> Some NotADirectoryError
      | Some (Dir w) \<Rightarrow> obstacle fs (pre @ [c]) cs)"

text \<open>\<open>os.path.exists(filename)\<close>\<close>

definition path_exists :: "fs \<Rightarrow> path \<Rightarrow> bool" where
  "path_exists fs p \<longleftrightarrow> fs p \<noteq> None"

text \<open>\<open>open(filename, 'r')\<close> followed by reading the whole text.\<close>

definition open_read :: "fs \<Rightarrow> path \<Rightarrow> error + string" where
  "open_read fs p =
     (case fs p of
        None \<Rightarrow>
          (case obstacle fs [] p of
             Some e \<Rightarrow> Inl e
           | None \<Rightarrow> Inl FileNotFoundError)
      | Some (Dir w) \<Rightarrow> Inl IsADirectoryError
      | Some (File r w c) \<Rightarrow> if r then Inr (universal_newlines c) else Inl PermissionError)"

text \<open>
  \<open>open(filename, 'w')\<close> followed by \<open>f.write(s)\<close>: an existing regular file is truncated
  and rewritten; a missing one is created in its parent directory, which must exist. No
  directory is created. The text is stored as it is written: the line separator of the
  platform is the line feed.
\<close>

definition open_write :: "fs \<Rightarrow> path \<Rightarrow> string \<Rightarrow> error + fs" where
  "open_write fs p s =
     (case fs p of
        Some (Dir w) \<Rightarrow> Inl IsADirectoryError
      | Some (File r w c) \<Rightarrow> if w then Inr (fs(p \<mapsto> File r w s)) else Inl PermissionError
      | None \<Rightarrow>
          (case obstacle fs [] p of
             Some e \<Rightarrow> Inl e
           | None \<Rightarrow>
               (case fs (parent p) of
                  None \<Rightarrow> Inl FileNotFoundError
                | Some (File r w c) \<Rightarrow> Inl NotADirectoryError
                | Some (Dir w) \<Rightarrow>
                    if w then Inr (fs(p \<mapsto> File True True s)) else Inl PermissionError)))"

section \<open>\<open>SpecificationGenerator._write_file\<close>\<close>

text \<open>
  The \<open>for i, line in enumerate(lines[1:])\<close> loop with its \<open>break\<close>: the first line that
  strips to the marker sets \<open>header_end = i + 2\<close>; without one \<open>header_end\<close> stays \<open>-1\<close>.
\<close>

fun find_end :: "nat \<Rightarrow> string list \<Rightarrow> int" where
  "find_end i [] = -1"
| "find_end i (line # rest) =
     (if strip line = ''---'' then int i + 2 else find_end (Suc i) rest)"

definition header_end :: "string list \<Rightarrow> int" where
  "header_end lines =
     (if length lines > 2 \<and> strip (hd lines) = ''---'' then find_end 0 (tl lines) else -1)"

text \<open>
  The text that is written after the fresh header: \<open>content\<close>, unless a header was found
  and what follows it is not blank, in which case it is what follows the old header.
\<close>

definition new_content :: "string list \<Rightarrow> string \<Rightarrow> string" where
  "new_content lines content =
     (let he = header_end lines in
      if he \<noteq> -1 then
        (let content_without_header = concat (drop (nat he) lines) in
         if strip content_without_header \<noteq> '''' then content_without_header else content)
      else content)"

definition write_file :: "datetime \<Rightarrow> path \<Rightarrow> string \<Rightarrow> fs \<Rightarrow> error + fs" where
  "write_file now filename content fs =
     (if path_exists fs filename then
        (case open_read fs filename of
           Inl e \<Rightarrow> Inl e
         | Inr text \<Rightarrow>
             open_write fs filename (metadata now @ new_content (readlines text) content))
      else open_write fs filename (metadata now @ content))"

section \<open>\<open>SpecificationGenerator\<close>: the constructor and the documents\<close>





text \<open>The object: its only attribute is \<open>output_dir\<close>.\<close>

record generator =
  output_dir :: path


text \<open>
  Each of the eight \<open>generate_*\<close> methods computes \<open>self.output_dir / name\<close>, takes a text
  and calls \<open>_write_file\<close>. For five documents the text is a string literal of the method;
  these literals are a parameter \<open>content\<close> of the model. The three other methods read their
  text from a file below the working directory: \<open>open("specs/...", "r")\<close> and \<open>f.read()\<close>.
\<close>

datatype document =
  Authentication | Authorization | Monitoring | Deployment | DisasterRecovery
  | ApiSpecs | Security | Performance

fun doc_filename :: "document \<Rightarrow> string" where
  "doc_filename Authentication = ''authentication-requirements.md''"
| "doc_filename Authorization = ''authorization-requirements.md''"
| "doc_filename Monitoring = ''monitoring-requirements.md''"
| "doc_filename Deployment = ''deployment-architectures.md''"
| "doc_filename DisasterRecovery = ''disaster-recovery.md''"
| "doc_filename ApiSpecs = ''api-specifications.md''"
| "doc_filename Security = ''security-requirements.md''"
| "doc_filename Performance = ''performance-requirements.md''"

definition doc_path :: "generator \<Rightarrow> document \<Rightarrow> path" where
  "doc_path g d = output_dir g @ [doc_filename d]"

fun doc_source :: "document \<Rightarrow> path option" where
  "doc_source Authentication = None"
| "doc_source Authorization = None"
| "doc_source Monitoring = None"
| "doc_source Deployment = Some [''specs'', ''deployment-architectures.md'']"
| "doc_source DisasterRecovery = Some [''specs'', ''disaster-recovery.md'']"
| "doc_source ApiSpecs = Some [''specs'', ''api-specifications.md'']"
| "doc_source Security = None"
| "doc_source Performance = None"

definition generate :: "generator \<Rightarrow> (document \<Rightarrow> string) \<Rightarrow> document \<Rightarrow> datetime \<Rightarrow> fs \<Rightarrow> error + fs" where
  "generate g content d now fs =
     (case doc_source d of
        None \<Rightarrow> write_file now (doc_path g d) (content d) fs
      | Some source \<Rightarrow>
          (case open_read fs source of
             Inl e \<Rightarrow> Inl e
           | Inr text \<Rightarrow> write_file now (doc_path g d) text fs))"

text \<open>
  A sequence of method calls with no \<open>try\<close> around them: the first exception leaves the
  sequence, with the file system as it is then. \<open>clock d\<close> is the reading of the clock when
  document \<open>d\<close> is written.
\<close>

fun generate_docs ::
  "generator \<Rightarrow> (document \<Rightarrow> string) \<Rightarrow> (document \<Rightarrow> datetime) \<Rightarrow> document list \<Rightarrow> fs \<Rightarrow> error option \<times> fs" where
  "generate_docs g content clock [] fs = (None, fs)"
| "generate_docs g content clock (d # ds) fs =
     (case generate g content d (clock d) fs of
        Inl e \<Rightarrow> (Some e, fs)
      | Inr fs' \<Rightarrow> generate_docs g content clock ds fs')"

definition all_documents :: "document list" where
  "all_documents = [Authentication, Authorization, Monitoring, Deployment, DisasterRecovery,
     ApiSpecs, Security, Performance]"

definition generate_all ::
  "generator \<Rightarrow> (document \<Rightarrow> string) \<Rightarrow> (document \<Rightarrow> datetime) \<Rightarrow> fs \<Rightarrow> error option \<times> fs" where
  "generate_all g content clock fs = generate_docs g content clock all_documents fs"

section \<open>The table initialisation script\<close>

text \<open>
  An exception raised by the client library: a \<open>ClientError\<close> with its error code
  (\<open>e.response['Error']['Code']\<close>), or any other \<open>Exception\<close> with its message.
\<close>

datatype exn = ClientError string | OtherException string

record gsi =
  index_name :: string
  gsi_key_schema :: "(string \<times> string) list"
  projection_type :: string
  read_capacity_units :: nat
  write_capacity_units :: nat

record table_request =
  table_name :: string
  key_schema :: "(string \<times> string) list"
  attribute_definitions :: "(string \<times> string) list"
  global_secondary_indexes :: "gsi list"
  billing_mode :: string

definition TABLE_NAME :: string where
  "TABLE_NAME = ''enterprise-data''"

text \<open>The keyword arguments of the one \<open>dynamodb.create_table\<close> call.\<close>

definition create_table_request :: table_request where
  "create_table_request = \<lparr>
     table_name = TABLE_NAME,
     key_schema = [(''PK'', ''HASH''), (''SK'', ''RANGE'')],
     attribute_definitions = [(''PK'', ''S''), (''SK'', ''S''), (''GSI1PK'', ''S''), (''GSI1SK'', ''S'')],
     global_secondary_indexes = [\<lparr>
       index_name = ''GSI1'',
       gsi_key_schema = [(''GSI1PK'', ''HASH''), (''GSI1SK'', ''RANGE'')],
       projection_type = ''ALL'',
       read_capacity_units = 5,
       write_capacity_units = 5\<rparr>],
     billing_mode = ''PAY_PER_REQUEST''\<rparr>"

text \<open>
  The service is a parameter: a state \<open>'s\<close> and the three operations the script calls,
  each returning the exception it raises, if any, and the next state.
\<close>

record 's dynamodb =
  list_tables :: "'s \<Rightarrow> exn option \<times> 's"
  table_load :: "string \<Rightarrow> 's \<Rightarrow> exn option \<times> 's"
  service_create_table :: "table_request \<Rightarrow> 's \<Rightarrow> exn option \<times> 's"

datatype call = ListTables | DescribeTable string | CreateTable table_request

text \<open>The lines the script prints, one constructor for each \<open>print\<close> that reports a state.\<close>

datatype message =
  Banner | Checking | IsRunning | NotAccessible exn | StartHint
  | TableAlreadyExists | Creating | CreatedSuccessfully | ErrorCreating exn
  | BootstrapHint | UnexpectedError exn

text \<open>What a run has done so far: the service's state, the requests sent, the lines printed.\<close>

record 's run =
  backend :: 's
  calls :: "call list"
  stdout :: "message list"

definition print :: "message \<Rightarrow> 's run \<Rightarrow> 's run" where
  "print m r = r\<lparr>stdout := stdout r @ [m]\<rparr>"

definition request :: "call \<Rightarrow> ('s \<Rightarrow> exn option \<times> 's) \<Rightarrow> 's run \<Rightarrow> exn option \<times> 's run" where
  "request c f r =
     (case f (backend r) of (res, s') \<Rightarrow> (res, r\<lparr>backend := s', calls := calls r @ [c]\<rparr>))"

definition check_dynamodb_running :: "'s dynamodb \<Rightarrow> 's run \<Rightarrow> bool \<times> 's run" where
  "check_dynamodb_running db r =
     (case request ListTables (list_tables db) (print Checking r) of
        (None, r') \<Rightarrow> (True, print IsRunning r')
      | (Some e, r') \<Rightarrow> (False, print StartHint (print (NotAccessible e) r')))"

definition table_exists :: "'s dynamodb \<Rightarrow> string \<Rightarrow> 's run \<Rightarrow> (exn + bool) \<times> 's run" where
  "table_exists db name r =
     (case request (DescribeTable name) (table_load db name) r of
        (None, r') \<Rightarrow> (Inr True, r')
      | (Some (ClientError code), r') \<Rightarrow>
          if code = ''ResourceNotFoundException'' then (Inr False, r')
          else (Inl (ClientError code), r')
      | (Some (OtherException m), r') \<Rightarrow> (Inl (OtherException m), r'))"

definition create_table :: "'s dynamodb \<Rightarrow> 's run \<Rightarrow> (exn + bool) \<times> 's run" where
  "create_table db r =
     (case request (CreateTable create_table_request)
             (service_create_table db create_table_request) (print Creating r) of
        (None, r') \<Rightarrow> (Inr True, print CreatedSuccessfully r')
      | (Some (ClientError code), r') \<Rightarrow>
          if code = ''ResourceInUseException'' then (Inr True, print TableAlreadyExists r')
          else (Inr False, print (ErrorCreating (ClientError code)) r')
      | (Some (OtherException m), r') \<Rightarrow> (Inl (OtherException m), r'))"

text \<open>
  \<open>main\<close>: \<open>Inr n\<close> is \<open>sys.exit(n)\<close>, \<open>Inl e\<close> an exception that leaves \<open>main\<close>.
\<close>

definition main :: "'s dynamodb \<Rightarrow> 's run \<Rightarrow> (exn + nat) \<times> 's run" where
  "main db r =
     (case check_dynamodb_running db (print Banner r) of
        (False, r1) \<Rightarrow> (Inr 1, r1)
      | (True, r1) \<Rightarrow>
          (case table_exists db TABLE_NAME r1 of
             (Inl e, r2) \<Rightarrow> (Inl e, r2)
           | (Inr True, r2) \<Rightarrow> (Inr 0, print BootstrapHint (print TableAlreadyExists r2))
           | (Inr False, r2) \<Rightarrow>
               (case create_table db r2 of
                  (Inl e, r3) \<Rightarrow> (Inl e, r3)
                | (Inr False, r3) \<Rightarrow> (Inr 1, r3)
                | (Inr True, r3) \<Rightarrow> (Inr 0, print BootstrapHint r3))))"

text \<open>
  The \<open>__main__\<close> block, started on a service in state \<open>s\<close>: the exit status of the process
  and what the run did. An \<open>Exception\<close> out of \<open>main\<close> is printed and the status is 1.
\<close>

definition script :: "'s dynamodb \<Rightarrow> 's \<Rightarrow> nat \<times> 's run" where
  "script db s =
     (case main db \<lparr>backend = s, calls = [], stdout = []\<rparr> of
        (Inr n, r) \<Rightarrow> (n, r)
      | (Inl e, r) \<Rightarrow> (1, print (UnexpectedError e) r))"

text \<open>
  Modelled from the spec: the provisioning collaborator of section 6, which is not part of
  the repository. Its state is the list of the tables it holds; it can always be reached;
  describing a table it does not hold fails with the "not found" condition, and creating a
  table whose name it holds fails with the "already exists" condition.
\<close>

definition local_dynamodb :: "table_request list dynamodb" where
  "local_dynamodb = \<lparr>
     list_tables = (\<lambda>s. (None, s)),
     table_load = (\<lambda>name s.
       if name \<in> set (map table_name s) then (None, s)
       else (Some (ClientError ''ResourceNotFoundException''), s)),
     service_create_table = (\<lambda>req s.
       if table_name req \<in> set (map table_name s)
       then (Some (ClientError ''ResourceInUseException''), s)
       else (None, s @ [req]))\<rparr>"

text \<open>
  A service on which another provisioner wins the race: the table is not there when it is
  described and is there when it is created. The state counts the requests.
\<close>

definition racing_dynamodb :: "nat dynamodb" where
  "racing_dynamodb = \<lparr>
     list_tables = (\<lambda>s. (None, Suc s)),
     table_load = (\<lambda>name s. (Some (ClientError ''ResourceNotFoundException''), Suc s)),
     service_create_table = (\<lambda>req s. (Some (ClientError ''ResourceInUseException''), Suc s))\<rparr>"

section \<open>Concrete inputs\<close>

definition noon :: datetime where
  "noon = \<lparr>year = 2026, month = 11, day = 4, hour = 12, minute = 0, second = 0\<rparr>"

definition later :: datetime where
  "later = \<lparr>year = 2026, month = 11, day = 5, hour = 8, minute = 30, second = 15\<rparr>"

text \<open>A working directory with nothing in it.\<close>

definition root_only :: fs where
  "root_only = [[] \<mapsto> Dir True]"

text \<open>The file \<open>a.md\<close> after one write of \<open>A\<close>, and after a second write, of \<open>B\<close>.\<close>

definition written_once :: fs where
  "written_once = root_only([''a.md''] \<mapsto> File True True (metadata noon @ ''A\<newline>''))"

definition written_twice :: fs where
  "written_twice = root_only([''a.md''] \<mapsto> File True True (metadata later @ ''\<newline>A\<newline>''))"

text \<open>A header block followed by blank lines only.\<close>

definition blank_remainder :: fs where
  "blank_remainder =
     root_only([''a.md''] \<mapsto> File True True ''---\<newline>Generated: before\<newline>---\<newline> \<newline>\<newline>'')"

text \<open>A file with no header, and one whose marker lines are indented by one space.\<close>

definition plain_file :: fs where
  "plain_file = root_only([''a.md''] \<mapsto> File True True ''plain text\<newline>'')"

definition padded_marker_text :: string where
  "padded_marker_text = '' ---\<newline>old header\<newline> ---\<newline>old body\<newline>''"

definition padded_marker_file :: fs where
  "padded_marker_file = root_only([''a.md''] \<mapsto> File True True padded_marker_text)"

text \<open>A file whose second marker line is its eighth line.\<close>

definition late_marker_lines :: "string list" where
  "late_marker_lines = [''---\<newline>'', ''a\<newline>'', ''b\<newline>'', ''c\<newline>'', ''d\<newline>'', ''e\<newline>'',
     ''f\<newline>'', ''---\<newline>'', ''old\<newline>'']"

text \<open>A working directory that holds the empty directory \<open>specs\<close>.\<close>

definition specs_dir :: fs where
  "specs_dir = root_only([''specs''] \<mapsto> Dir True)"

text \<open>
  A generator on the directory \<open>out\<close>, in a working directory that holds the three files that
  are read from \<open>specs\<close> and an empty \<open>out\<close>.
\<close>

definition out_generator :: generator where
  "out_generator = \<lparr>output_dir = [''out'']\<rparr>"

definition sources_and_out :: fs where
  "sources_and_out = specs_dir(
     [''specs'', ''deployment-architectures.md''] \<mapsto> File True True ''deployment\<newline>'',
     [''specs'', ''disaster-recovery.md''] \<mapsto> File True True ''recovery\<newline>'',
     [''specs'', ''api-specifications.md''] \<mapsto> File True True ''api\<newline>'',
     [''out''] \<mapsto> Dir True)"

text \<open>
  The same with the file of the third document in \<open>out\<close>, which the process may neither read
  nor write; and what \<open>generate_all\<close> leaves of it.
\<close>

definition locked_third :: fs where
  "locked_third = sources_and_out([''out'', ''monitoring-requirements.md''] \<mapsto> File False False [])"

definition after_locked_run :: fs where
  "after_locked_run = locked_third(
     [''out'', ''authentication-requirements.md''] \<mapsto> File True True (metadata noon @ ''text\<newline>''),
     [''out'', ''authorization-requirements.md''] \<mapsto> File True True (metadata noon @ ''text\<newline>''))"

text \<open>A service that cannot be reached, and one that refuses to describe any table.\<close>

definition unreachable_dynamodb :: "nat dynamodb" where
  "unreachable_dynamodb = \<lparr>
     list_tables = (\<lambda>s. (Some (OtherException ''Could not connect to the endpoint URL''), Suc s)),
     table_load = (\<lambda>name s. (None, Suc s)),
     service_create_table = (\<lambda>req s. (None, Suc s))\<rparr>"

definition denying_dynamodb :: "nat dynamodb" where
  "denying_dynamodb = \<lparr>
     list_tables = (\<lambda>s. (None, Suc s)),
     table_load = (\<lambda>name s. (Some (ClientError ''AccessDeniedException''), Suc s)),
     service_create_table = (\<lambda>req s. (None, Suc s))\<rparr>"

section \<open>Lines and whitespace: lemmas\<close>

lemma concat_readlines: "concat (readlines s) = s"
  by (induction s) (auto split: list.splits)

lemma readlines_line: "LF \<notin> set l \<Longrightarrow> readlines (l @ LF # rest) = (l @ [LF]) # readlines rest"
  by (induction l) auto

lemma strip_marker: "strip ''---\<newline>'' = ''---''"
  by (simp add: strip_def is_space_def)

lemma digit_char_in: "digit_char n \<in> set ''0123456789''"
  unfolding digit_char_def by (rule nth_mem) simp

lemma digit_char_not_LF: "digit_char n \<noteq> CHR 0x0A" "CHR 0x0A \<noteq> digit_char n"
  using digit_char_in[of n] by auto

lemma strftime_no_LF: "LF \<notin> set (strftime t)"
  by (simp add: strftime_def pad4_def pad2_def digit_char_not_LF LF_def)

text \<open>The digits of the time denote the reading of the clock.\<close>

lemma digit_values: "\<forall>k \<in> set [0..<10]. digit_value (''0123456789'' ! k) = k"
  by code_simp

lemma digit_value_digit_char: "digit_value (digit_char n) = n mod 10"
proof -
  have "n mod 10 \<in> set [0..<10]" by simp
  with digit_values show ?thesis unfolding digit_char_def by blast
qed

lemma read_decimal_pad2: "n < 100 \<Longrightarrow> read_decimal (pad2 n) = n"
proof -
  assume n: "n < 100"
  then have "n div 10 < 10" by simp
  then have "n div 10 mod 10 = n div 10" by simp
  then have "read_decimal (pad2 n) = 10 * (n div 10) + n mod 10"
    by (simp add: read_decimal_def pad2_def digit_value_digit_char)
  then show ?thesis by simp
qed


lemma read_decimal_pad4: "n < 10000 \<Longrightarrow> read_decimal (pad4 n) = n"
proof -
  assume n: "n < 10000"
  define a where "a = n div 10"
  define b where "b = a div 10"
  define c where "c = b div 10"
  have h: "n div 100 = b" "n div 1000 = c"
    by (simp_all add: a_def b_def c_def div_mult2_eq[symmetric])
  from n have "c < 10" unfolding h(2)[symmetric] by simp
  then have cm: "c mod 10 = c" by simp
  have "read_decimal (pad4 n) = 10 * (10 * (10 * (c mod 10) + b mod 10) + a mod 10) + n mod 10"
    by (simp add: read_decimal_def pad4_def digit_value_digit_char h a_def[symmetric])
  also have "\<dots> = 10 * (10 * (10 * c + b mod 10) + a mod 10) + n mod 10" by (simp only: cm)
  also have "10 * c + b mod 10 = b" by (simp add: c_def)
  also have "10 * b + a mod 10 = a" by (simp add: b_def)
  also have "10 * a + n mod 10 = n" by (simp add: a_def)
  finally show ?thesis .
qed

lemma strftime_fields:
  assumes "year t < 10000" "month t < 100" "day t < 100" "hour t < 100" "minute t < 100"
    "second t < 100"
  shows "length (strftime t) = 19"
    and "read_decimal (take 4 (strftime t)) = year t"
    and "read_decimal (take 2 (drop 5 (strftime t))) = month t"
    and "read_decimal (take 2 (drop 8 (strftime t))) = day t"
    and "read_decimal (take 2 (drop 11 (strftime t))) = hour t"
    and "read_decimal (take 2 (drop 14 (strftime t))) = minute t"
    and "read_decimal (take 2 (drop 17 (strftime t))) = second t"
    and "map ((!) (strftime t)) [4, 7, 10, 13, 16] = ''-- ::''"
proof -
  obtain y1 y2 y3 y4 where y: "pad4 (year t) = [y1, y2, y3, y4]" by (simp add: pad4_def)
  obtain m1 m2 where m: "pad2 (month t) = [m1, m2]" by (simp add: pad2_def)
  obtain d1 d2 where d: "pad2 (day t) = [d1, d2]" by (simp add: pad2_def)
  obtain h1 h2 where h: "pad2 (hour t) = [h1, h2]" by (simp add: pad2_def)
  obtain i1 i2 where i: "pad2 (minute t) = [i1, i2]" by (simp add: pad2_def)
  obtain s1 s2 where s: "pad2 (second t) = [s1, s2]" by (simp add: pad2_def)
  have f: "strftime t = [y1, y2, y3, y4, CHR ''-'', m1, m2, CHR ''-'', d1, d2, CHR '' '',
      h1, h2, CHR '':'', i1, i2, CHR '':'', s1, s2]"
    by (simp add: strftime_def y m d h i s)
  show "length (strftime t) = 19" by (simp add: f)
  have "take 4 (strftime t) = pad4 (year t)" by (simp add: f y)
  then show "read_decimal (take 4 (strftime t)) = year t"
    using assms(1) by (simp add: read_decimal_pad4)
  have "take 2 (drop 5 (strftime t)) = pad2 (month t)" by (simp add: f m)
  then show "read_decimal (take 2 (drop 5 (strftime t))) = month t"
    using assms(2) by (simp add: read_decimal_pad2)
  have "take 2 (drop 8 (strftime t)) = pad2 (day t)" by (simp add: f d)
  then show "read_decimal (take 2 (drop 8 (strftime t))) = day t"
    using assms(3) by (simp add: read_decimal_pad2)
  have "take 2 (drop 11 (strftime t)) = pad2 (hour t)" by (simp add: f h)
  then show "read_decimal (take 2 (drop 11 (strftime t))) = hour t"
    using assms(4) by (simp add: read_decimal_pad2)
  have "take 2 (drop 14 (strftime t)) = pad2 (minute t)" by (simp add: f i)
  then show "read_decimal (take 2 (drop 14 (strftime t))) = minute t"
    using assms(5) by (simp add: read_decimal_pad2)
  have "take 2 (drop 17 (strftime t)) = pad2 (second t)" by (simp add: f s)
  then show "read_decimal (take 2 (drop 17 (strftime t))) = second t"
    using assms(6) by (simp add: read_decimal_pad2)
  show "map ((!) (strftime t)) [4, 7, 10, 13, 16] = ''-- ::''"
    by (simp add: f)
qed

text \<open>The fresh header is the first four lines of whatever it is put in front of.\<close>

lemma metadata_lines:
  "readlines (metadata t @ X) =
     [''---\<newline>'', ''Generated: '' @ strftime t @ ''\<newline>'',
      ''Generator: Technical Specification Generator v1.0\<newline>'', ''---\<newline>'']
     @ readlines (LF # X)"
proof -
  let ?g = "''Generated: '' @ strftime t"
  let ?i = "''Generator: Technical Specification Generator v1.0''"
  have g: "LF \<notin> set ?g" using strftime_no_LF[of t] by (simp add: LF_def)
  have i: "LF \<notin> set ?i" by (simp add: LF_def)
  have m: "LF \<notin> set ''---''" by (simp add: LF_def)
  have "metadata t @ X = ''---'' @ LF # (?g @ LF # (?i @ LF # (''---'' @ LF # (LF # X))))"
    by (simp add: metadata_def LF_def)
  then have "readlines (metadata t @ X) =
      (''---'' @ [LF]) # (?g @ [LF]) # (?i @ [LF]) # (''---'' @ [LF]) # readlines (LF # X)"
    by (simp only: readlines_line[OF m] readlines_line[OF g] readlines_line[OF i])
  then show ?thesis by (simp add: LF_def)
qed

section \<open>The search for the header: lemmas\<close>

lemma find_end_none: "\<forall>l \<in> set ls. strip l \<noteq> ''---'' \<Longrightarrow> find_end i ls = -1"
  by (induction ls arbitrary: i) auto

lemma find_end_first:
  "\<forall>l \<in> set pre. strip l \<noteq> ''---'' \<Longrightarrow> strip e = ''---'' \<Longrightarrow>
   find_end i (pre @ e # post) = int i + int (length pre) + 2"
  by (induction pre arbitrary: i) auto

lemma find_end_split:
  "find_end i ls \<noteq> -1 \<Longrightarrow>
   \<exists>pre e post. ls = pre @ e # post \<and> (\<forall>l \<in> set pre. strip l \<noteq> ''---'') \<and> strip e = ''---''"
proof (induction ls arbitrary: i)
  case Nil
  then show ?case by simp
next
  case (Cons l ls)
  show ?case
  proof (cases "strip l = ''---''")
    case True
    then have "l # ls = [] @ l # ls \<and> (\<forall>x \<in> set []. strip x \<noteq> ''---'') \<and> strip l = ''---''"
      by simp
    then show ?thesis by blast
  next
    case False
    with Cons.prems have "find_end (Suc i) ls \<noteq> -1" by simp
    from Cons.IH[OF this] obtain pre e post where
      "ls = pre @ e # post" "\<forall>x \<in> set pre. strip x \<noteq> ''---''" "strip e = ''---''" by blast
    with False have "l # ls = (l # pre) @ e # post \<and>
        (\<forall>x \<in> set (l # pre). strip x \<noteq> ''---'') \<and> strip e = ''---''"
      by simp
    then show ?thesis by blast
  qed
qed

lemma header_end_decomp:
  assumes "strip l0 = ''---''" "\<forall>l \<in> set pre. strip l \<noteq> ''---''" "strip e = ''---''"
    and "pre \<noteq> [] \<or> post \<noteq> []"
  shows "header_end (l0 # pre @ e # post) = int (length pre) + 2"
proof -
  have "length (l0 # pre @ e # post) > 2" using assms(4) by (cases pre; cases post) auto
  then show ?thesis using assms(1-3) by (simp add: header_end_def find_end_first)
qed

lemma new_content_decomp:
  assumes "strip l0 = ''---''" "\<forall>l \<in> set pre. strip l \<noteq> ''---''" "strip e = ''---''"
  shows "new_content (l0 # pre @ e # post) content =
     (if strip (concat post) \<noteq> [] then concat post else content)"
proof (cases "pre \<noteq> [] \<or> post \<noteq> []")
  case True
  then have "header_end (l0 # pre @ e # post) = int (length pre) + 2"
    using assms by (rule header_end_decomp[rotated 3])
  moreover have "nat (int (length pre) + 2) = Suc (Suc (length pre))" by simp
  ultimately show ?thesis by (simp add: new_content_def Let_def)
next
  case False
  then show ?thesis by (simp add: new_content_def header_end_def strip_def)
qed

lemma new_content_no_header:
  "lines = [] \<or> strip (hd lines) \<noteq> ''---'' \<or> (\<forall>l \<in> set (tl lines). strip l \<noteq> ''---'')
   \<Longrightarrow> new_content lines content = content"
  by (auto simp: new_content_def header_end_def find_end_none)

lemma new_content_cases:
  "new_content lines content = content \<or>
   (\<exists>l0 pre e post. lines = l0 # pre @ e # post \<and> strip l0 = ''---'' \<and>
      (\<forall>l \<in> set pre. strip l \<noteq> ''---'') \<and> strip e = ''---'' \<and>
      strip (concat post) \<noteq> [] \<and> new_content lines content = concat post)"
proof (cases "header_end lines = -1")
  case True
  then show ?thesis by (simp add: new_content_def)
next
  case False
  then have l: "length lines > 2" "strip (hd lines) = ''---''" "find_end 0 (tl lines) \<noteq> -1"
    by (auto simp: header_end_def split: if_splits)
  from find_end_split[OF l(3)] obtain pre e post where
    d: "tl lines = pre @ e # post" "\<forall>x \<in> set pre. strip x \<noteq> ''---''" "strip e = ''---''" by blast
  from l(1) have "lines = hd lines # tl lines" by (cases lines) auto
  with d have eq: "lines = hd lines # pre @ e # post" by simp
  have nc: "new_content (hd lines # pre @ e # post) content =
     (if strip (concat post) \<noteq> [] then concat post else content)"
    using l(2) d(2,3) by (rule new_content_decomp)
  show ?thesis
  proof (cases "strip (concat post) = []")
    case True
    with nc eq show ?thesis by simp
  next
    case False
    with nc eq l(2) d(2,3) show ?thesis by metis
  qed
qed

section \<open>The resolution of a path: lemmas\<close>

lemma obstacle_None_iff:
  "obstacle fs pre cs = None \<longleftrightarrow> (\<forall>n < length cs. \<exists>w. fs (pre @ take n cs) = Some (Dir w))"
proof (induction cs arbitrary: pre)
  case Nil
  then show ?case by simp
next
  case (Cons c cs)
  have "(\<forall>n < Suc (length cs). \<exists>w. fs (pre @ take n (c # cs)) = Some (Dir w)) \<longleftrightarrow>
      (\<exists>w. fs pre = Some (Dir w)) \<and> (\<forall>m < length cs. \<exists>w. fs ((pre @ [c]) @ take m cs) = Some (Dir w))"
    by (auto simp: less_Suc_eq_0_disj)
  with Cons.IH[of "pre @ [c]"] show ?case
    by (auto split: option.splits node.splits)
qed





section \<open>\<open>_write_file\<close>: lemmas\<close>

lemma write_file_existing:
  "fs p = Some (File True True c) \<Longrightarrow>
   write_file now p body fs =
     Inr (fs(p \<mapsto> File True True (metadata now @ new_content (readlines (universal_newlines c)) body)))"
  by (simp add: write_file_def path_exists_def open_read_def open_write_def)

lemma write_file_fresh:
  "fs p = None \<Longrightarrow> obstacle fs [] p = None \<Longrightarrow> fs (parent p) = Some (Dir True) \<Longrightarrow>
   write_file now p body fs = Inr (fs(p \<mapsto> File True True (metadata now @ body)))"
  by (simp add: write_file_def path_exists_def open_write_def)

lemma write_file_cases:
  assumes "write_file now p body fs = Inr fs'"
  shows "(fs p = None \<and> fs' = fs(p \<mapsto> File True True (metadata now @ body))) \<or>
     (\<exists>r w c. fs p = Some (File r w c) \<and>
        fs' = fs(p \<mapsto> File r w (metadata now @ new_content (readlines (universal_newlines c)) body)))"
  using assms
  by (auto simp: write_file_def path_exists_def open_read_def open_write_def
      split: if_splits option.splits node.splits sum.splits)

lemma write_file_other_paths:
  "write_file now p body fs = Inr fs' \<Longrightarrow> q \<noteq> p \<Longrightarrow> fs' q = fs q"
  by (drule write_file_cases) auto

text \<open>The two writes of \<open>a.md\<close>, evaluated.\<close>

lemma lines_written_once:
  "readlines (universal_newlines (metadata noon @ ''A\<newline>'')) =
     ''---\<newline>'' # [''Generated: 2026-11-04 12:00:00\<newline>'',
        ''Generator: Technical Specification Generator v1.0\<newline>''] @
     ''---\<newline>'' # [''\<newline>'', ''A\<newline>'']"
  by (simp add: metadata_def strftime_def pad4_def pad2_def digit_char_def noon_def LF_def CR_def)

lemma first_write_evaluated:
  "write_file noon [''a.md''] ''A\<newline>'' root_only = Inr written_once"
  unfolding written_once_def
  by (rule write_file_fresh) (simp_all add: root_only_def parent_def)

lemma second_write_evaluated:
  "write_file later [''a.md''] ''B\<newline>'' written_once = Inr written_twice"
proof -
  have "written_once [''a.md''] = Some (File True True (metadata noon @ ''A\<newline>''))"
    by (simp add: written_once_def)
  from write_file_existing[where fs = written_once and p = "[''a.md'']" and now = later
      and body = "''B\<newline>''", OF this]
  show ?thesis
    by (simp add: lines_written_once new_content_def header_end_def strip_def is_space_def
        written_once_def written_twice_def)
qed

section \<open>The header writer: claims\<close>

text \<open>
  Claim C1, as amended. After every successful \<open>write_file\<close> the file is the fresh header
  followed by one of two texts: \<open>freshBody\<close>, or the text of the old file after the first
  end-marker line of its header block. The second is the case exactly when the old file has
  such a block (a first line that strips to the marker and a later line that does) and that
  text is not blank: then the old text is kept, without its header, and \<open>freshBody\<close> is not
  written.
\<close>

theorem write_file_header_then_fresh_or_old_body:
  assumes ok: "write_file now p freshBody fs = Inr fs'"
  shows "(\<exists>r w kept. fs' p = Some (File r w (metadata now @ kept)) \<and>
            (kept = freshBody \<or>
             (\<exists>c l0 pre e post. fs p = Some (File r w c) \<and>
                readlines (universal_newlines c) = l0 # pre @ e # post \<and>
                strip l0 = ''---'' \<and> (\<forall>l \<in> set pre. strip l \<noteq> ''---'') \<and> strip e = ''---'' \<and>
                strip (concat post) \<noteq> [] \<and> kept = concat post)))
       \<and> (\<forall>r w c l0 pre e post. fs p = Some (File r w c) \<longrightarrow>
              readlines (universal_newlines c) = l0 # pre @ e # post \<longrightarrow>
              strip l0 = ''---'' \<longrightarrow> (\<forall>l \<in> set pre. strip l \<noteq> ''---'') \<longrightarrow> strip e = ''---'' \<longrightarrow>
              strip (concat post) \<noteq> [] \<longrightarrow>
              fs' p = Some (File r w (metadata now @ concat post)))"
proof (rule conjI)
  from write_file_cases[OF ok]
  show "\<exists>r w kept. fs' p = Some (File r w (metadata now @ kept)) \<and>
            (kept = freshBody \<or>
             (\<exists>c l0 pre e post. fs p = Some (File r w c) \<and>
                readlines (universal_newlines c) = l0 # pre @ e # post \<and>
                strip l0 = ''---'' \<and> (\<forall>l \<in> set pre. strip l \<noteq> ''---'') \<and> strip e = ''---'' \<and>
                strip (concat post) \<noteq> [] \<and> kept = concat post))"
  proof
    assume "fs p = None \<and> fs' = fs(p \<mapsto> File True True (metadata now @ freshBody))"
    then have "fs' p = Some (File True True (metadata now @ freshBody))" by simp
    then show ?thesis by blast
  next
    assume "\<exists>r w c. fs p = Some (File r w c) \<and>
        fs' = fs(p \<mapsto> File r w (metadata now @ new_content (readlines (universal_newlines c)) freshBody))"
    then obtain r w c where old: "fs p = Some (File r w c)"
      and new: "fs' p = Some (File r w (metadata now @ new_content (readlines (universal_newlines c)) freshBody))"
      by auto
    from new_content_cases[of "readlines (universal_newlines c)" freshBody]
    show ?thesis
    proof
      assume "new_content (readlines (universal_newlines c)) freshBody = freshBody"
      with new show ?thesis by auto
    next
      assume "\<exists>l0 pre e post. readlines (universal_newlines c) = l0 # pre @ e # post \<and>
        strip l0 = ''---'' \<and> (\<forall>l \<in> set pre. strip l \<noteq> ''---'') \<and> strip e = ''---'' \<and>
        strip (concat post) \<noteq> [] \<and>
        new_content (readlines (universal_newlines c)) freshBody = concat post"
      with old new show ?thesis by metis
    qed
  qed
next
  show "\<forall>r w c l0 pre e post. fs p = Some (File r w c) \<longrightarrow>
              readlines (universal_newlines c) = l0 # pre @ e # post \<longrightarrow>
              strip l0 = ''---'' \<longrightarrow> (\<forall>l \<in> set pre. strip l \<noteq> ''---'') \<longrightarrow> strip e = ''---'' \<longrightarrow>
              strip (concat post) \<noteq> [] \<longrightarrow>
              fs' p = Some (File r w (metadata now @ concat post))"
  proof (intro allI impI)
    fix r w c l0 pre e post
    assume old: "fs p = Some (File r w c)"
      and ls: "readlines (universal_newlines c) = l0 # pre @ e # post"
      and h: "strip l0 = ''---''" "\<forall>l \<in> set pre. strip l \<noteq> ''---''" "strip e = ''---''"
      and nb: "strip (concat post) \<noteq> []"
    from write_file_cases[OF ok] old
    have "fs' p = Some (File r w (metadata now @ new_content (readlines (universal_newlines c)) freshBody))"
      by auto
    moreover have "new_content (l0 # pre @ e # post) freshBody = concat post"
      using new_content_decomp[OF h, of post freshBody] nb by simp
    ultimately show "fs' p = Some (File r w (metadata now @ concat post))"
      using ls by simp
  qed
qed

text \<open>
  The theorem at the second write of \<open>a.md\<close>: the old file has the header of the first write,
  and what follows it, an empty line and \<open>A\<close>, is what the second write keeps.
\<close>

theorem write_file_header_then_fresh_or_old_body_witness:
  "write_file later [''a.md''] ''B\<newline>'' written_once = Inr written_twice
   \<and> written_twice [''a.md''] = Some (File True True (metadata later @ concat [''\<newline>'', ''A\<newline>'']))"
proof -
  have ok: "write_file later [''a.md''] ''B\<newline>'' written_once = Inr written_twice"
    by (rule second_write_evaluated)
  have old: "written_once [''a.md''] = Some (File True True (metadata noon @ ''A\<newline>''))"
    by (simp add: written_once_def)
  have m: "strip ''---\<newline>'' = ''---''" by (rule strip_marker)
  have pre: "\<forall>l \<in> set [''Generated: 2026-11-04 12:00:00\<newline>'',
        ''Generator: Technical Specification Generator v1.0\<newline>'']. strip l \<noteq> ''---''"
    by (simp add: strip_def is_space_def)
  have nb: "strip (concat [''\<newline>'', ''A\<newline>'']) \<noteq> []"
    by (simp add: strip_def is_space_def)
  from write_file_header_then_fresh_or_old_body[OF ok]
  have "\<forall>r w c l0 pre e post. written_once [''a.md''] = Some (File r w c) \<longrightarrow>
              readlines (universal_newlines c) = l0 # pre @ e # post \<longrightarrow>
              strip l0 = ''---'' \<longrightarrow> (\<forall>l \<in> set pre. strip l \<noteq> ''---'') \<longrightarrow> strip e = ''---'' \<longrightarrow>
              strip (concat post) \<noteq> [] \<longrightarrow>
              written_twice [''a.md''] = Some (File r w (metadata later @ concat post))"
    by (rule conjunct2)
  with old lines_written_once m pre nb
  have "written_twice [''a.md''] =
      Some (File True True (metadata later @ concat [''\<newline>'', ''A\<newline>'']))"
    by blast
  with ok show ?thesis by simp
qed

text \<open>
  Claim C1 as it is stated fails: \<open>A\<close> is written to a new file, then \<open>B\<close> to the same
  file. The file then holds the second header followed by an empty line and \<open>A\<close>, not the
  second header followed by \<open>B\<close>.
\<close>

theorem second_write_keeps_first_body:
  "write_file noon [''a.md''] ''A\<newline>'' root_only = Inr written_once
   \<and> write_file later [''a.md''] ''B\<newline>'' written_once = Inr written_twice
   \<and> written_twice [''a.md''] = Some (File True True (metadata later @ ''\<newline>A\<newline>''))
   \<and> metadata later @ ''\<newline>A\<newline>'' \<noteq> metadata later @ ''B\<newline>''"
  using first_write_evaluated second_write_evaluated by (simp add: written_twice_def)

text \<open>
  Claim C4, as amended. When the existing file has a first line that strips to the start
  marker, every later line is searched, however far down, for the first one that strips to
  the marker. If there is one, and the file has at least three lines, \<open>header_end\<close> is the
  index after it and what the old header is cut from is everything after that line. If
  there is none, no header is found and the existing text is not used: the new content is
  the fresh body.
\<close>

theorem header_end_first_marker_anywhere:
  assumes "strip l0 = ''---''"
  shows "(\<forall>pre e post. (\<forall>l \<in> set pre. strip l \<noteq> ''---'') \<and> strip e = ''---'' \<and> (pre \<noteq> [] \<or> post \<noteq> []) \<longrightarrow>
            header_end (l0 # pre @ e # post) = int (length pre) + 2 \<and>
            drop (nat (header_end (l0 # pre @ e # post))) (l0 # pre @ e # post) = post)
       \<and> (\<forall>rest content. (\<forall>l \<in> set rest. strip l \<noteq> ''---'') \<longrightarrow>
            header_end (l0 # rest) = -1 \<and> new_content (l0 # rest) content = content)"
proof (intro conjI allI impI)
  fix pre post :: "string list" and e :: string
  assume h: "(\<forall>l \<in> set pre. strip l \<noteq> ''---'') \<and> strip e = ''---'' \<and> (pre \<noteq> [] \<or> post \<noteq> [])"
  then show he: "header_end (l0 # pre @ e # post) = int (length pre) + 2"
    using assms by (intro header_end_decomp) auto
  have "nat (int (length pre) + 2) = Suc (Suc (length pre))" by simp
  with he show "drop (nat (header_end (l0 # pre @ e # post))) (l0 # pre @ e # post) = post"
    by simp
next
  fix rest :: "string list" and content :: string
  assume "\<forall>l \<in> set rest. strip l \<noteq> ''---''"
  then show "header_end (l0 # rest) = -1"
    by (simp add: header_end_def find_end_none)
  then show "new_content (l0 # rest) content = content"
    by (simp add: new_content_def)
qed

text \<open>
  The theorem on a file whose end marker is its eighth line, and on a file of three lines
  with no end marker.
\<close>

theorem header_end_first_marker_anywhere_witness:
  "header_end late_marker_lines = 8
   \<and> drop (nat (header_end late_marker_lines)) late_marker_lines = [''old\<newline>'']
   \<and> header_end [''---\<newline>'', ''a\<newline>'', ''b\<newline>''] = -1
   \<and> new_content [''---\<newline>'', ''a\<newline>'', ''b\<newline>''] ''fresh'' = ''fresh''"
proof -
  let ?pre = "[''a\<newline>'', ''b\<newline>'', ''c\<newline>'', ''d\<newline>'', ''e\<newline>'', ''f\<newline>'']"
  have pre: "(\<forall>l \<in> set ?pre. strip l \<noteq> ''---'') \<and> strip ''---\<newline>'' = ''---'' \<and>
      (?pre \<noteq> [] \<or> [''old\<newline>''] \<noteq> [])"
    by (simp add: strip_def is_space_def)
  have rest: "\<forall>l \<in> set [''a\<newline>'', ''b\<newline>'']. strip l \<noteq> ''---''"
    by (simp add: strip_def is_space_def)
  note t = header_end_first_marker_anywhere[OF strip_marker]
  note found = t[THEN conjunct1, THEN spec, THEN spec, THEN spec, THEN mp, OF pre]
  note absent = t[THEN conjunct2, THEN spec, THEN spec[where x = "''fresh''"], THEN mp, OF rest]
  from found absent show ?thesis by (simp add: late_marker_lines_def)
qed

text \<open>
  Claim C4 as it is stated fails: no number of first lines bounds the search. Whatever the
  bound \<open>k\<close>, there is a file whose line 0 is the start marker and which has no end marker
  in lines 1 to \<open>k\<close>, in which a header is found all the same: the start marker, \<open>k\<close> other
  lines, the end marker, an old body.
\<close>

theorem end_marker_search_is_unbounded:
  "\<not> (\<exists>k. \<forall>lines.
          lines \<noteq> [] \<and> hd lines = ''---\<newline>'' \<and>
          (\<forall>i. 0 < i \<and> i \<le> k \<and> i < length lines \<longrightarrow> strip (lines ! i) \<noteq> ''---'')
          \<longrightarrow> header_end lines = -1)"
proof
  assume "\<exists>k. \<forall>lines.
          lines \<noteq> [] \<and> hd lines = ''---\<newline>'' \<and>
          (\<forall>i. 0 < i \<and> i \<le> k \<and> i < length lines \<longrightarrow> strip (lines ! i) \<noteq> ''---'')
          \<longrightarrow> header_end lines = -1"
  then obtain k where k: "\<And>lines.
          lines \<noteq> [] \<and> hd lines = ''---\<newline>'' \<and>
          (\<forall>i. 0 < i \<and> i \<le> k \<and> i < length lines \<longrightarrow> strip (lines ! i) \<noteq> ''---'')
          \<Longrightarrow> header_end lines = -1" by blast
  let ?lines = "''---\<newline>'' # replicate k ''x\<newline>'' @ ''---\<newline>'' # [''old\<newline>'']"
  have x: "strip ''x\<newline>'' \<noteq> ''---''" by (simp add: strip_def is_space_def)
  have "\<forall>i. 0 < i \<and> i \<le> k \<and> i < length ?lines \<longrightarrow> strip (?lines ! i) \<noteq> ''---''"
  proof (intro allI impI)
    fix i assume i: "0 < i \<and> i \<le> k \<and> i < length ?lines"
    then obtain j where j: "i = Suc j" "j < k" by (cases i) auto
    then have "?lines ! i = ''x\<newline>''" by (simp add: nth_append)
    with x show "strip (?lines ! i) \<noteq> ''---''" by simp
  qed
  then have "?lines \<noteq> [] \<and> hd ?lines = ''---\<newline>'' \<and>
      (\<forall>i. 0 < i \<and> i \<le> k \<and> i < length ?lines \<longrightarrow> strip (?lines ! i) \<noteq> ''---'')"
    by simp
  from k[OF this] have "header_end ?lines = -1" .
  moreover have "header_end ?lines = int (length (replicate k ''x\<newline>'')) + 2"
    by (rule header_end_decomp) (simp_all add: strip_marker x)
  ultimately show False by simp
qed

text \<open>
  Claim C7, as amended. When the path is a readable and writable file that is empty or
  whose first line, stripped of the whitespace around it, is not the start marker, the
  whole of its text is discarded: the write succeeds and the file is the fresh header
  followed by exactly \<open>body\<close>.
\<close>

theorem write_file_without_header_line:
  assumes "fs p = Some (File True True c)"
    and "readlines (universal_newlines c) = [] \<or>
         strip (hd (readlines (universal_newlines c))) \<noteq> ''---''"
  shows "write_file now p body fs = Inr (fs(p \<mapsto> File True True (metadata now @ body)))"
proof -
  have "new_content (readlines (universal_newlines c)) body = body"
    using assms(2) by (intro new_content_no_header) blast
  with write_file_existing[where fs = fs and p = p and now = now and body = body, OF assms(1)]
  show ?thesis by simp
qed

theorem write_file_without_header_line_witness:
  "write_file noon [''a.md''] ''body\<newline>'' plain_file =
     Inr (plain_file([''a.md''] \<mapsto> File True True (metadata noon @ ''body\<newline>'')))"
proof -
  have f: "plain_file [''a.md''] = Some (File True True ''plain text\<newline>'')"
    by (simp add: plain_file_def)
  have l: "readlines (universal_newlines ''plain text\<newline>'') = [] \<or>
      strip (hd (readlines (universal_newlines ''plain text\<newline>''))) \<noteq> ''---''"
    by (simp add: strip_def is_space_def LF_def CR_def)
  from write_file_without_header_line[where fs = plain_file and p = "[''a.md'']", OF f l]
  show ?thesis .
qed

text \<open>
  Claim C7 as it is stated fails: the text of the file below does not start with the
  start marker (its first three characters are a space and two dashes, and its first line
  is not the marker line), yet the line strips to the marker, a header is found, and the
  old body is written back in place of the new one.
\<close>

theorem padded_marker_is_a_header:
  "take 3 padded_marker_text \<noteq> ''---''
   \<and> hd (readlines (universal_newlines padded_marker_text)) \<noteq> ''---\<newline>''
   \<and> write_file noon [''a.md''] ''new body\<newline>'' padded_marker_file =
       Inr (padded_marker_file([''a.md''] \<mapsto> File True True (metadata noon @ ''old body\<newline>'')))
   \<and> metadata noon @ ''old body\<newline>'' \<noteq> metadata noon @ ''new body\<newline>''"
proof -
  have f: "padded_marker_file [''a.md''] = Some (File True True padded_marker_text)"
    by (simp add: padded_marker_file_def)
  have l: "readlines (universal_newlines padded_marker_text) =
      [a_line, b_line, c_line, d_line]" if "a_line = '' ---\<newline>''" "b_line = ''old header\<newline>''"
      "c_line = '' ---\<newline>''" "d_line = ''old body\<newline>''" for a_line b_line c_line d_line
    using that by (simp add: padded_marker_text_def LF_def CR_def)
  have n: "new_content (readlines (universal_newlines padded_marker_text)) ''new body\<newline>'' = ''old body\<newline>''"
    by (simp add: l new_content_def header_end_def strip_def is_space_def)
  from write_file_existing[where fs = padded_marker_file and p = "[''a.md'']" and now = noon
      and body = "''new body\<newline>''", OF f]
  have "write_file noon [''a.md''] ''new body\<newline>'' padded_marker_file =
       Inr (padded_marker_file([''a.md''] \<mapsto> File True True (metadata noon @ ''old body\<newline>'')))"
    by (simp add: n)
  then show ?thesis by (simp add: l) (simp add: padded_marker_text_def)
qed

text \<open>
  Claim C8, as amended. On a path where nothing exists, whose ancestors are directories and
  whose parent directory can be written to, the write succeeds, and the new file is the
  fresh header followed by \<open>body\<close>. The header is four lines and an empty one: the marker,
  the line of the current time, the line of the fixed name of the generator, the marker.
  The time is printed in nineteen characters, as year, month, day, hour, minute and second
  in decimal digits, from which the reading of the clock is read back.
\<close>

theorem first_write_header_and_body:
  assumes "fs p = None"
    and "\<forall>n < length p. \<exists>w. fs (take n p) = Some (Dir w)"
    and "fs (parent p) = Some (Dir True)"
  shows "write_file now p body fs = Inr (fs(p \<mapsto> File True True (metadata now @ body)))
     \<and> readlines (metadata now @ body) =
          [''---\<newline>'', ''Generated: '' @ strftime now @ ''\<newline>'',
           ''Generator: Technical Specification Generator v1.0\<newline>'', ''---\<newline>'']
          @ readlines (CHR 0x0A # body)
     \<and> (year now < 10000 \<and> month now < 100 \<and> day now < 100 \<and>
         hour now < 100 \<and> minute now < 100 \<and> second now < 100 \<longrightarrow>
           length (strftime now) = 19 \<and>
           map ((!) (strftime now)) [4, 7, 10, 13, 16] = ''-- ::'' \<and>
           read_decimal (take 4 (strftime now)) = year now \<and>
           read_decimal (take 2 (drop 5 (strftime now))) = month now \<and>
           read_decimal (take 2 (drop 8 (strftime now))) = day now \<and>
           read_decimal (take 2 (drop 11 (strftime now))) = hour now \<and>
           read_decimal (take 2 (drop 14 (strftime now))) = minute now \<and>
           read_decimal (take 2 (drop 17 (strftime now))) = second now)"
proof (intro conjI impI)
  from assms(2) have "obstacle fs [] p = None" by (simp add: obstacle_None_iff)
  with assms(1) show "write_file now p body fs = Inr (fs(p \<mapsto> File True True (metadata now @ body)))"
    using assms(3) by (rule write_file_fresh)
  show "readlines (metadata now @ body) =
          [''---\<newline>'', ''Generated: '' @ strftime now @ ''\<newline>'',
           ''Generator: Technical Specification Generator v1.0\<newline>'', ''---\<newline>'']
          @ readlines (CHR 0x0A # body)"
    using metadata_lines[of now body] by (simp add: LF_def)
next
  assume "year now < 10000 \<and> month now < 100 \<and> day now < 100 \<and>
         hour now < 100 \<and> minute now < 100 \<and> second now < 100"
  then have v: "year now < 10000" "month now < 100" "day now < 100" "hour now < 100"
    "minute now < 100" "second now < 100" by simp_all
  show "length (strftime now) = 19" using v by (rule strftime_fields)
  show "map ((!) (strftime now)) [4, 7, 10, 13, 16] = ''-- ::''" using v by (rule strftime_fields)
  show "read_decimal (take 4 (strftime now)) = year now" using v by (rule strftime_fields)
  show "read_decimal (take 2 (drop 5 (strftime now))) = month now" using v by (rule strftime_fields)
  show "read_decimal (take 2 (drop 8 (strftime now))) = day now" using v by (rule strftime_fields)
  show "read_decimal (take 2 (drop 11 (strftime now))) = hour now" using v by (rule strftime_fields)
  show "read_decimal (take 2 (drop 14 (strftime now))) = minute now" using v by (rule strftime_fields)
  show "read_decimal (take 2 (drop 17 (strftime now))) = second now" using v by (rule strftime_fields)
qed

text \<open>
  The theorem on the first write of \<open>a.md\<close> in the empty working directory, at half past
  eight and fifteen seconds on the fifth of November 2026.
\<close>

theorem first_write_header_and_body_witness:
  "write_file later [''a.md''] ''body\<newline>'' root_only =
     Inr (root_only([''a.md''] \<mapsto> File True True (metadata later @ ''body\<newline>'')))
   \<and> length (strftime later) = 19
   \<and> read_decimal (take 4 (strftime later)) = 2026
   \<and> read_decimal (take 2 (drop 5 (strftime later))) = 11
   \<and> read_decimal (take 2 (drop 8 (strftime later))) = 5
   \<and> read_decimal (take 2 (drop 11 (strftime later))) = 8
   \<and> read_decimal (take 2 (drop 14 (strftime later))) = 30
   \<and> read_decimal (take 2 (drop 17 (strftime later))) = 15"
proof -
  have a: "root_only [''a.md''] = None" by (simp add: root_only_def)
  have b: "\<forall>n < length [''a.md'']. \<exists>w. root_only (take n [''a.md'']) = Some (Dir w)"
    by (auto simp: root_only_def)
  have c: "root_only (parent [''a.md'']) = Some (Dir True)"
    by (simp add: root_only_def parent_def)
  have v: "year later < 10000 \<and> month later < 100 \<and> day later < 100 \<and>
      hour later < 100 \<and> minute later < 100 \<and> second later < 100"
    by (simp add: later_def)
  note t = first_write_header_and_body[where fs = root_only and p = "[''a.md'']" and now = later
      and body = "''body\<newline>''", OF a b c]
  have f: "year later = 2026" "month later = 11" "day later = 5" "hour later = 8"
    "minute later = 30" "second later = 15"
    by (simp_all add: later_def)
  note fields = t[THEN conjunct2, THEN conjunct2, THEN mp, OF v, unfolded f]
  from t[THEN conjunct1] fields show ?thesis by blast
qed

text \<open>
  Claim C8 as it is stated fails: nothing exists at \<open>out/first.md\<close>, and the write fails,
  because the directory \<open>out\<close> does not exist.
\<close>

theorem first_write_into_missing_directory_fails:
  "specs_dir [''out'', ''first.md''] = None
   \<and> write_file noon [''out'', ''first.md''] ''body\<newline>'' specs_dir = Inl FileNotFoundError"
  by (simp add: write_file_def path_exists_def open_write_def specs_dir_def root_only_def)

text \<open>
  Claim C10. When the existing file has a header block, that is a first line that strips
  to the marker and a first later line that does, and the text after that line is empty or
  blank, the write puts the fresh header and exactly \<open>freshBody\<close> in the file: nothing of
  the blank remainder is kept.
\<close>

theorem blank_remainder_replaced:
  assumes "fs p = Some (File True True c)"
    and "readlines (universal_newlines c) = l0 # pre @ e # post"
    and "strip l0 = ''---''" and "\<forall>l \<in> set pre. strip l \<noteq> ''---''" and "strip e = ''---''"
    and "strip (concat post) = []"
  shows "write_file now p freshBody fs = Inr (fs(p \<mapsto> File True True (metadata now @ freshBody)))"
proof -
  have "new_content (l0 # pre @ e # post) freshBody = freshBody"
    using new_content_decomp[OF assms(3-5), of post freshBody] assms(6) by simp
  with write_file_existing[where fs = fs and p = p and now = now and body = freshBody, OF assms(1)]
    assms(2)
  show ?thesis by simp
qed

theorem blank_remainder_replaced_witness:
  "write_file noon [''a.md''] ''B\<newline>'' blank_remainder =
     Inr (blank_remainder([''a.md''] \<mapsto> File True True (metadata noon @ ''B\<newline>'')))"
proof -
  let ?c = "''---\<newline>Generated: before\<newline>---\<newline> \<newline>\<newline>''"
  have f: "blank_remainder [''a.md''] = Some (File True True ?c)"
    by (simp add: blank_remainder_def)
  have l: "readlines (universal_newlines ?c) =
      ''---\<newline>'' # [''Generated: before\<newline>''] @ ''---\<newline>'' # ['' \<newline>'', ''\<newline>'']"
    by (simp add: LF_def CR_def)
  have pre: "\<forall>l \<in> set [''Generated: before\<newline>'']. strip l \<noteq> ''---''"
    by (simp add: strip_def is_space_def)
  have b: "strip (concat ['' \<newline>'', ''\<newline>'']) = []"
    by (simp add: strip_def is_space_def)
  from blank_remainder_replaced[where fs = blank_remainder and p = "[''a.md'']",
      OF f l strip_marker pre strip_marker b]
  show ?thesis .
qed

section \<open>The constructor and the batch: lemmas\<close>







lemma doc_filename_inj: "doc_filename a = doc_filename b \<Longrightarrow> a = b"
  by (cases a; cases b; simp)

lemma doc_path_inj: "doc_path g a = doc_path g b \<longleftrightarrow> a = b"
  by (auto simp: doc_path_def dest: doc_filename_inj)

lemma distinct_all_documents: "distinct all_documents"
  by (simp add: all_documents_def)

lemma set_all_documents: "d \<in> set all_documents"
  by (cases d) (simp_all add: all_documents_def)

text \<open>Whatever the text of a document comes from, rendering it is one \<open>write_file\<close>.\<close>

lemma generate_cases:
  "generate g content d now fs = Inr fs' \<Longrightarrow>
   \<exists>body. write_file now (doc_path g d) body fs = Inr fs'"
  by (auto simp: generate_def split: option.splits sum.splits)

text \<open>A batch touches the paths of its own documents only.\<close>

lemma generate_docs_unchanged:
  "generate_docs g content clock ds fs = (res, fs') \<Longrightarrow> q \<notin> doc_path g ` set ds \<Longrightarrow> fs' q = fs q"
proof (induction ds arbitrary: fs)
  case Nil
  then show ?case by simp
next
  case (Cons d ds)
  show ?case
  proof (cases "generate g content d (clock d) fs")
    case (Inl e)
    with Cons.prems show ?thesis by simp
  next
    case (Inr fs1)
    with Cons.prems have "generate_docs g content clock ds fs1 = (res, fs')" by simp
    from Cons.IH[OF this] Cons.prems(2) have "fs' q = fs1 q" by simp
    moreover from generate_cases[OF Inr] Cons.prems(2) have "fs1 q = fs q"
      by (auto dest: write_file_other_paths)
    ultimately show ?thesis by simp
  qed
qed

text \<open>A batch that fails has run a prefix of its documents and failed on the next one.\<close>

lemma generate_docs_failure_split:
  "generate_docs g content clock ds fs = (Some e, fs') \<Longrightarrow>
   \<exists>pre d post. ds = pre @ d # post \<and> generate_docs g content clock pre fs = (None, fs') \<and>
     generate g content d (clock d) fs' = Inl e"
proof (induction ds arbitrary: fs)
  case Nil
  then show ?case by simp
next
  case (Cons d ds)
  show ?case
  proof (cases "generate g content d (clock d) fs")
    case (Inl e')
    with Cons.prems have "e' = e" "fs' = fs" by simp_all
    with Inl have "d # ds = [] @ d # ds \<and> generate_docs g content clock [] fs = (None, fs') \<and>
        generate g content d (clock d) fs' = Inl e" by simp
    then show ?thesis by blast
  next
    case (Inr fs1)
    with Cons.prems have "generate_docs g content clock ds fs1 = (Some e, fs')" by simp
    from Cons.IH[OF this] obtain pre d' post where
      "ds = pre @ d' # post" "generate_docs g content clock pre fs1 = (None, fs')"
      "generate g content d' (clock d') fs' = Inl e" by blast
    with Inr have "d # ds = (d # pre) @ d' # post \<and>
        generate_docs g content clock (d # pre) fs = (None, fs') \<and>
        generate g content d' (clock d') fs' = Inl e" by simp
    then show ?thesis by blast
  qed
qed

lemma generate_docs_written:
  "generate_docs g content clock ds fs = (None, fs') \<Longrightarrow> distinct ds \<Longrightarrow>
   \<forall>d \<in> set ds. \<exists>r w body. fs' (doc_path g d) = Some (File r w (metadata (clock d) @ body))"
proof (induction ds arbitrary: fs)
  case Nil
  then show ?case by simp
next
  case (Cons d ds)
  from Cons.prems(1) obtain fs1 where
    one: "generate g content d (clock d) fs = Inr fs1"
    and rest: "generate_docs g content clock ds fs1 = (None, fs')"
    by (auto split: sum.splits)
  from generate_cases[OF one] obtain written where
    "write_file (clock d) (doc_path g d) written fs = Inr fs1" by blast
  from write_file_cases[OF this]
  have "\<exists>r w body. fs1 (doc_path g d) = Some (File r w (metadata (clock d) @ body))"
    by auto
  moreover from Cons.prems(2) have "doc_path g d \<notin> doc_path g ` set ds"
    by (auto simp: doc_path_inj)
  with rest have "fs' (doc_path g d) = fs1 (doc_path g d)"
    by (rule generate_docs_unchanged)
  ultimately have "\<exists>r w body. fs' (doc_path g d) = Some (File r w (metadata (clock d) @ body))"
    by simp
  moreover from Cons.IH[OF rest] Cons.prems(2)
  have "\<forall>d \<in> set ds. \<exists>r w body. fs' (doc_path g d) = Some (File r w (metadata (clock d) @ body))"
    by simp
  ultimately show ?case by simp
qed

text \<open>The batch on the directory whose third document is locked, evaluated.\<close>

lemma locked_run:
  "generate_all out_generator (\<lambda>d. ''text\<newline>'') (\<lambda>d. noon) locked_third =
     (Some PermissionError, after_locked_run)"
  by (simp add: generate_all_def all_documents_def generate_def doc_path_def out_generator_def
      write_file_def path_exists_def open_read_def open_write_def parent_def
      after_locked_run_def locked_third_def sources_and_out_def specs_dir_def root_only_def)

text \<open>The batch with nothing locked succeeds.\<close>

lemma clean_run:
  "fst (generate_all out_generator (\<lambda>d. ''text\<newline>'') (\<lambda>d. noon) sources_and_out) = None"
  by (simp add: generate_all_def all_documents_def generate_def doc_path_def out_generator_def
      write_file_def path_exists_def open_read_def open_write_def parent_def
      sources_and_out_def specs_dir_def root_only_def)

section \<open>The constructor and the batch: claims\<close>

text \<open>
  Claim C3, as amended. \<open>generate_all\<close> renders the eight documents in one fixed order.
  When none fails, every document has been written, each with its header. The first
  document that fails ends the batch: its error is the result, the documents before it
  have been written, and neither it nor any document after it has been touched.
\<close>

theorem generate_all_stops_at_first_failure:
  assumes run: "generate_all g content clock fs = (res, fs')"
  shows "(res = None \<longrightarrow>
            (\<forall>d. \<exists>r w body. fs' (doc_path g d) = Some (File r w (metadata (clock d) @ body))))
       \<and> (\<forall>e. res = Some e \<longrightarrow>
            (\<exists>pre d post. all_documents = pre @ d # post \<and>
               generate_docs g content clock pre fs = (None, fs') \<and>
               generate g content d (clock d) fs' = Inl e \<and>
               (\<forall>d' \<in> set pre. \<exists>r w body.
                   fs' (doc_path g d') = Some (File r w (metadata (clock d') @ body))) \<and>
               (\<forall>d' \<in> set (d # post). fs' (doc_path g d') = fs (doc_path g d'))))"
proof (intro conjI allI impI)
  fix d
  assume "res = None"
  with run have "generate_docs g content clock all_documents fs = (None, fs')"
    by (simp add: generate_all_def)
  from generate_docs_written[OF this distinct_all_documents] set_all_documents[of d]
  show "\<exists>r w body. fs' (doc_path g d) = Some (File r w (metadata (clock d) @ body))"
    by blast
next
  fix e
  assume "res = Some e"
  with run have "generate_docs g content clock all_documents fs = (Some e, fs')"
    by (simp add: generate_all_def)
  from generate_docs_failure_split[OF this] obtain pre d post where
    split: "all_documents = pre @ d # post"
    and finished: "generate_docs g content clock pre fs = (None, fs')"
    and fail: "generate g content d (clock d) fs' = Inl e" by blast
  from distinct_all_documents split have dist: "distinct (pre @ d # post)" by simp
  then have "distinct pre" by simp
  from generate_docs_written[OF finished this]
  have written: "\<forall>d' \<in> set pre. \<exists>r w body.
      fs' (doc_path g d') = Some (File r w (metadata (clock d') @ body))" .
  have untouched: "\<forall>d' \<in> set (d # post). fs' (doc_path g d') = fs (doc_path g d')"
  proof
    fix d' assume "d' \<in> set (d # post)"
    with dist have "d' \<notin> set pre" by auto
    then have "doc_path g d' \<notin> doc_path g ` set pre" by (auto simp: doc_path_inj)
    with finished show "fs' (doc_path g d') = fs (doc_path g d')"
      by (rule generate_docs_unchanged)
  qed
  from split finished fail written untouched
  show "\<exists>pre d post. all_documents = pre @ d # post \<and>
               generate_docs g content clock pre fs = (None, fs') \<and>
               generate g content d (clock d) fs' = Inl e \<and>
               (\<forall>d' \<in> set pre. \<exists>r w body.
                   fs' (doc_path g d') = Some (File r w (metadata (clock d') @ body))) \<and>
               (\<forall>d' \<in> set (d # post). fs' (doc_path g d') = fs (doc_path g d'))"
    by blast
qed

text \<open>
  The theorem on a batch that succeeds, and on the batch that fails on the locked third
  document.
\<close>

theorem generate_all_stops_at_first_failure_witness:
  "(\<forall>d. \<exists>r w body.
      snd (generate_all out_generator (\<lambda>d. ''text\<newline>'') (\<lambda>d. noon) sources_and_out)
        (doc_path out_generator d) = Some (File r w (metadata noon @ body)))
   \<and> (\<exists>pre d post. all_documents = pre @ d # post \<and>
         generate_docs out_generator (\<lambda>d. ''text\<newline>'') (\<lambda>d. noon) pre locked_third
           = (None, after_locked_run) \<and>
         generate out_generator (\<lambda>d. ''text\<newline>'') d noon after_locked_run = Inl PermissionError \<and>
         (\<forall>d' \<in> set pre. \<exists>r w body.
             after_locked_run (doc_path out_generator d') = Some (File r w (metadata noon @ body))) \<and>
         (\<forall>d' \<in> set (d # post).
             after_locked_run (doc_path out_generator d') = locked_third (doc_path out_generator d')))"
proof -
  let ?run = "generate_all out_generator (\<lambda>d. ''text\<newline>'') (\<lambda>d. noon) sources_and_out"
  have "?run = (None, snd ?run)" using clean_run by (simp add: prod_eq_iff)
  from generate_all_stops_at_first_failure[OF this, THEN conjunct1]
  have a: "\<forall>d. \<exists>r w body. snd ?run (doc_path out_generator d) = Some (File r w (metadata noon @ body))"
    by simp
  from generate_all_stops_at_first_failure[OF locked_run, THEN conjunct2]
  show ?thesis using a by simp
qed

text \<open>
  Claim C3 as it is stated fails: with the third document locked, the batch ends with the
  permission error of that document, and none of the five documents after it exists
  afterwards, though the three files that are read are there and nothing stands in the way
  of the last two.
\<close>

theorem failure_aborts_the_batch:
  "fst (generate_all out_generator (\<lambda>d. ''text\<newline>'') (\<lambda>d. noon) locked_third) = Some PermissionError
   \<and> snd (generate_all out_generator (\<lambda>d. ''text\<newline>'') (\<lambda>d. noon) locked_third)
        (doc_path out_generator Deployment) = None
   \<and> snd (generate_all out_generator (\<lambda>d. ''text\<newline>'') (\<lambda>d. noon) locked_third)
        (doc_path out_generator DisasterRecovery) = None
   \<and> snd (generate_all out_generator (\<lambda>d. ''text\<newline>'') (\<lambda>d. noon) locked_third)
        (doc_path out_generator ApiSpecs) = None
   \<and> snd (generate_all out_generator (\<lambda>d. ''text\<newline>'') (\<lambda>d. noon) locked_third)
        (doc_path out_generator Security) = None
   \<and> snd (generate_all out_generator (\<lambda>d. ''text\<newline>'') (\<lambda>d. noon) locked_third)
        (doc_path out_generator Performance) = None"
  by (simp add: locked_run)
    (simp add: after_locked_run_def locked_third_def sources_and_out_def specs_dir_def root_only_def
      doc_path_def out_generator_def)




section \<open>The table initialisation script: lemmas\<close>

lemmas script_defs = script_def main_def check_dynamodb_running_def table_exists_def
  create_table_def request_def print_def

lemma local_describe_present:
  "TABLE_NAME \<in> set (map table_name s) \<Longrightarrow>
   script local_dynamodb s =
     (0, \<lparr>backend = s, calls = [ListTables, DescribeTable TABLE_NAME],
          stdout = [Banner, Checking, IsRunning, TableAlreadyExists, BootstrapHint]\<rparr>)"
  by (simp add: script_defs local_dynamodb_def)

lemma local_describe_absent:
  "TABLE_NAME \<notin> set (map table_name s) \<Longrightarrow>
   script local_dynamodb s =
     (0, \<lparr>backend = s @ [create_table_request],
          calls = [ListTables, DescribeTable TABLE_NAME, CreateTable create_table_request],
          stdout = [Banner, Checking, IsRunning, Creating, CreatedSuccessfully, BootstrapHint]\<rparr>)"
  by (simp add: script_defs local_dynamodb_def create_table_request_def)

section \<open>The table initialisation script: claims\<close>

text \<open>
  Claim C2. On the service of the specification, holding no table, a first run of the
  script creates the table and exits with status 0, and a second run finds it, reports that
  it already exists and exits with status 0, leaving the service as the first run left it.
  From any state of that service a run exits with status 0 and a further run changes
  nothing. On any service, when the table is reported missing by the existence check and
  the create request then reports that it already exists, the run reports that it already
  exists and exits with status 0: the conflict is neither printed as an error nor raised.
\<close>

theorem ensure_is_idempotent:
  "script local_dynamodb [] =
     (0, \<lparr>backend = [create_table_request],
          calls = [ListTables, DescribeTable TABLE_NAME, CreateTable create_table_request],
          stdout = [Banner, Checking, IsRunning, Creating, CreatedSuccessfully, BootstrapHint]\<rparr>)
   \<and> script local_dynamodb [create_table_request] =
     (0, \<lparr>backend = [create_table_request],
          calls = [ListTables, DescribeTable TABLE_NAME],
          stdout = [Banner, Checking, IsRunning, TableAlreadyExists, BootstrapHint]\<rparr>)
   \<and> fst (script local_dynamodb s) = 0
   \<and> TABLE_NAME \<in> set (map table_name (backend (snd (script local_dynamodb s))))
   \<and> script local_dynamodb (backend (snd (script local_dynamodb s))) =
     (0, \<lparr>backend = backend (snd (script local_dynamodb s)),
          calls = [ListTables, DescribeTable TABLE_NAME],
          stdout = [Banner, Checking, IsRunning, TableAlreadyExists, BootstrapHint]\<rparr>)
   \<and> (list_tables db t = (None, t1) \<and>
        table_load db TABLE_NAME t1 = (Some (ClientError ''ResourceNotFoundException''), t2) \<and>
        service_create_table db create_table_request t2 =
          (Some (ClientError ''ResourceInUseException''), t3) \<longrightarrow>
        script db t =
          (0, \<lparr>backend = t3,
               calls = [ListTables, DescribeTable TABLE_NAME, CreateTable create_table_request],
               stdout = [Banner, Checking, IsRunning, Creating, TableAlreadyExists, BootstrapHint]\<rparr>))"
proof (intro conjI impI)
  have absent: "TABLE_NAME \<notin> set (map table_name [])" by simp
  from local_describe_absent[OF absent]
  show "script local_dynamodb [] =
     (0, \<lparr>backend = [create_table_request],
          calls = [ListTables, DescribeTable TABLE_NAME, CreateTable create_table_request],
          stdout = [Banner, Checking, IsRunning, Creating, CreatedSuccessfully, BootstrapHint]\<rparr>)"
    by simp
  have present: "TABLE_NAME \<in> set (map table_name [create_table_request])"
    by (simp add: create_table_request_def)
  from local_describe_present[OF present]
  show "script local_dynamodb [create_table_request] =
     (0, \<lparr>backend = [create_table_request],
          calls = [ListTables, DescribeTable TABLE_NAME],
          stdout = [Banner, Checking, IsRunning, TableAlreadyExists, BootstrapHint]\<rparr>)" .
  show "fst (script local_dynamodb s) = 0"
    by (cases "TABLE_NAME \<in> set (map table_name s)")
      (simp_all add: local_describe_present local_describe_absent)
  show holds: "TABLE_NAME \<in> set (map table_name (backend (snd (script local_dynamodb s))))"
    by (cases "TABLE_NAME \<in> set (map table_name s)")
      (simp_all add: local_describe_present local_describe_absent create_table_request_def)
  from local_describe_present[OF holds]
  show "script local_dynamodb (backend (snd (script local_dynamodb s))) =
     (0, \<lparr>backend = backend (snd (script local_dynamodb s)),
          calls = [ListTables, DescribeTable TABLE_NAME],
          stdout = [Banner, Checking, IsRunning, TableAlreadyExists, BootstrapHint]\<rparr>)" .
next
  assume "list_tables db t = (None, t1) \<and>
        table_load db TABLE_NAME t1 = (Some (ClientError ''ResourceNotFoundException''), t2) \<and>
        service_create_table db create_table_request t2 =
          (Some (ClientError ''ResourceInUseException''), t3)"
  then show "script db t =
          (0, \<lparr>backend = t3,
               calls = [ListTables, DescribeTable TABLE_NAME, CreateTable create_table_request],
               stdout = [Banner, Checking, IsRunning, Creating, TableAlreadyExists, BootstrapHint]\<rparr>)"
    by (simp add: script_defs)
qed

text \<open>The theorem on the service on which the other provisioner wins the race.\<close>

theorem ensure_is_idempotent_witness:
  "script racing_dynamodb 0 =
     (0, \<lparr>backend = 3,
          calls = [ListTables, DescribeTable TABLE_NAME, CreateTable create_table_request],
          stdout = [Banner, Checking, IsRunning, Creating, TableAlreadyExists, BootstrapHint]\<rparr>)"
proof -
  have race: "list_tables racing_dynamodb 0 = (None, 1) \<and>
      table_load racing_dynamodb TABLE_NAME 1 = (Some (ClientError ''ResourceNotFoundException''), 2) \<and>
      service_create_table racing_dynamodb create_table_request 2 =
        (Some (ClientError ''ResourceInUseException''), 3)"
    by (simp add: racing_dynamodb_def)
  note all = ensure_is_idempotent[where db = racing_dynamodb and t = 0 and ?t1.0 = 1 and ?t2.0 = 2
      and ?t3.0 = 3]
  from all race show ?thesis by blast
qed

text \<open>
  Claim C5. When the \<open>list_tables\<close> call raises an exception, whatever it is, the run prints
  that the service is not accessible and ends with exit status 1; \<open>list_tables\<close> is the only
  request it has sent: neither the existence check nor the create request is attempted.
\<close>

theorem unreachable_service_exits_at_once:
  assumes "list_tables db s = (Some e, s')"
  shows "script db s =
     (1, \<lparr>backend = s', calls = [ListTables],
          stdout = [Banner, Checking, NotAccessible e, StartHint]\<rparr>)"
  using assms by (simp add: script_defs)

theorem unreachable_service_exits_at_once_witness:
  "script unreachable_dynamodb 0 =
     (1, \<lparr>backend = 1, calls = [ListTables],
          stdout = [Banner, Checking,
            NotAccessible (OtherException ''Could not connect to the endpoint URL''), StartHint]\<rparr>)"
proof -
  have "list_tables unreachable_dynamodb 0 =
      (Some (OtherException ''Could not connect to the endpoint URL''), 1)"
    by (simp add: unreachable_dynamodb_def)
  from unreachable_service_exits_at_once[OF this] show ?thesis .
qed

text \<open>
  Claim C6. After a successful liveness check, the existence check absorbs two outcomes of
  the describe call: when the table is found the run reports that it already exists and
  exits with status 0 without a create request, and when the service raises the
  \<open>ResourceNotFoundException\<close> client error the run goes on to the create request. Every
  other exception of the describe call leaves \<open>table_exists\<close> and \<open>main\<close>: the run sends no
  create request, prints the exception as an unexpected error and exits with status 1.
\<close>

theorem table_exists_absorbs_two_outcomes:
  assumes "list_tables db s = (None, s1)" and "table_load db TABLE_NAME s1 = (res, s2)"
  shows "(res = None \<longrightarrow>
            script db s =
              (0, \<lparr>backend = s2, calls = [ListTables, DescribeTable TABLE_NAME],
                   stdout = [Banner, Checking, IsRunning, TableAlreadyExists, BootstrapHint]\<rparr>))
       \<and> (res = Some (ClientError ''ResourceNotFoundException'') \<longrightarrow>
            calls (snd (script db s)) =
              [ListTables, DescribeTable TABLE_NAME, CreateTable create_table_request])
       \<and> (\<forall>e. res = Some e \<and> e \<noteq> ClientError ''ResourceNotFoundException'' \<longrightarrow>
            script db s =
              (1, \<lparr>backend = s2, calls = [ListTables, DescribeTable TABLE_NAME],
                   stdout = [Banner, Checking, IsRunning, UnexpectedError e]\<rparr>))"
proof (intro conjI allI impI)
  assume "res = None"
  with assms show "script db s =
      (0, \<lparr>backend = s2, calls = [ListTables, DescribeTable TABLE_NAME],
           stdout = [Banner, Checking, IsRunning, TableAlreadyExists, BootstrapHint]\<rparr>)"
    by (simp add: script_defs)
next
  assume "res = Some (ClientError ''ResourceNotFoundException'')"
  with assms show "calls (snd (script db s)) =
      [ListTables, DescribeTable TABLE_NAME, CreateTable create_table_request]"
    by (simp add: script_defs split: prod.splits option.splits exn.splits)
next
  fix e
  assume e: "res = Some e \<and> e \<noteq> ClientError ''ResourceNotFoundException''"
  show "script db s =
      (1, \<lparr>backend = s2, calls = [ListTables, DescribeTable TABLE_NAME],
           stdout = [Banner, Checking, IsRunning, UnexpectedError e]\<rparr>)"
  proof (cases e)
    case (ClientError code)
    with e assms show ?thesis by (simp add: script_defs)
  next
    case (OtherException m)
    with e assms show ?thesis by (simp add: script_defs)
  qed
qed

text \<open>
  The theorem on the service of the specification with the table, on the same service
  without it, and on the service that refuses the describe call.
\<close>

theorem table_exists_absorbs_two_outcomes_witness:
  "script local_dynamodb [create_table_request] =
     (0, \<lparr>backend = [create_table_request], calls = [ListTables, DescribeTable TABLE_NAME],
          stdout = [Banner, Checking, IsRunning, TableAlreadyExists, BootstrapHint]\<rparr>)
   \<and> calls (snd (script local_dynamodb [])) =
       [ListTables, DescribeTable TABLE_NAME, CreateTable create_table_request]
   \<and> script denying_dynamodb 0 =
       (1, \<lparr>backend = 2, calls = [ListTables, DescribeTable TABLE_NAME],
            stdout = [Banner, Checking, IsRunning,
              UnexpectedError (ClientError ''AccessDeniedException'')]\<rparr>)"
proof -
  have l1: "list_tables local_dynamodb [create_table_request] = (None, [create_table_request])"
    and d1: "table_load local_dynamodb TABLE_NAME [create_table_request] = (None, [create_table_request])"
    by (simp_all add: local_dynamodb_def create_table_request_def)
  have l2: "list_tables local_dynamodb [] = (None, [])"
    and d2: "table_load local_dynamodb TABLE_NAME [] =
      (Some (ClientError ''ResourceNotFoundException''), [])"
    by (simp_all add: local_dynamodb_def)
  have l3: "list_tables denying_dynamodb 0 = (None, 1)"
    and d3: "table_load denying_dynamodb TABLE_NAME 1 = (Some (ClientError ''AccessDeniedException''), 2)"
    by (simp_all add: denying_dynamodb_def)
  have ne: "Some (ClientError ''AccessDeniedException'') = Some (ClientError ''AccessDeniedException'') \<and>
      ClientError ''AccessDeniedException'' \<noteq> ClientError ''ResourceNotFoundException''"
    by simp
  note found = table_exists_absorbs_two_outcomes[OF l1 d1, THEN conjunct1, THEN mp, OF refl]
  note absent = table_exists_absorbs_two_outcomes[OF l2 d2, THEN conjunct2, THEN conjunct1, THEN mp, OF refl]
  note other = table_exists_absorbs_two_outcomes[OF l3 d3, THEN conjunct2, THEN conjunct2, THEN spec,
      THEN mp, OF ne]
  from found absent other show ?thesis by simp
qed

end
